theory Spec2Isabelle
  imports Main
begin

section \<open>Strings\<close>

text \<open>
  Strings are character lists. \<open>String.prototype.trim\<close> removes white space and line
  terminators from both ends; within the range of \<^typ>\<open>char\<close> these are TAB, LF, VT, FF,
  CR, SPACE and NO-BREAK SPACE. A string is falsy in a condition exactly when it is empty.
\<close>

definition is_ws :: "char \<Rightarrow> bool" where
  "is_ws c = (c = CHR 0x09 \<or> c = CHR 0x0A \<or> c = CHR 0x0B \<or> c = CHR 0x0C \<or> c = CHR 0x0D
              \<or> c = CHR 0x20 \<or> c = CHR 0xA0)"

definition trim :: "string \<Rightarrow> string" where
  "trim s = rev (dropWhile is_ws (rev (dropWhile is_ws s)))"

definition whitespace_only :: "string \<Rightarrow> bool" where
  "whitespace_only s = list_all is_ws s"

section \<open>The conversation pipeline: \<open>pages/ChatbotPage.tsx\<close>\<close>

datatype role = User | Assistant

record Message =
  role :: role
  content :: "string option"
  sources :: "string list option"

text \<open>
  The payload of the backend's response, \<open>response.data\<close>, which \<open>types/index.ts\<close>
  declares as \<open>ChatMessage\<close>. Nothing checks an arriving payload against that
  declaration, so a field is \<open>None\<close> when the payload is an object that lacks it, and
  reading it gives \<open>undefined\<close>. For the same reason the \<open>content\<close> of a transcript
  entry is \<open>None\<close> when it was copied from a payload with no \<open>response\<close> field.
\<close>

record ChatMessage =
  session_id :: "string option"
  message :: "string option"
  response :: "string option"
  response_sources :: "string list option"
  timestamp :: "string option"

text \<open>
  The component's state: the four \<open>useState\<close> cells and the \<open>loadingRef\<close> cell. State
  updates are applied in the order they are issued. Two fields only record what happened:
  \<open>calls\<close> lists the arguments of every \<open>chatbotApi.sendMessage\<close> invocation, and
  \<open>settled\<close> counts the invocations whose promise has settled.
\<close>

record page =
  messages :: "Message list"
  input :: string
  loading :: bool
  sessionId :: string
  loadingRef :: bool
  calls :: "(string \<times> string) list"
  settled :: nat

definition greeting :: string where
  "greeting = ''Hello! I'' @ [CHR 0x27] @ ''m your insurance assistant. I can help explain insurance terms, answer questions about the claims process, and guide you through your policy. What would you like to know?''"

definition fallback :: string where
  "fallback = ''Sorry, I encountered an error. Please try again.''"

definition initial_page :: "string \<Rightarrow> page" where
  "initial_page sid =
     \<lparr>messages = [\<lparr>role = Assistant, content = Some greeting, sources = None\<rparr>],
      input = [], loading = False, sessionId = sid, loadingRef = False,
      calls = [], settled = 0\<rparr>"

definition appendMessage :: "role \<Rightarrow> string \<Rightarrow> page \<Rightarrow> page" where
  "appendMessage r c s =
     (let prev = messages s in
      if prev \<noteq> [] \<and> role (last prev) = r \<and> content (last prev) = Some c then s
      else s\<lparr>messages := prev @ [\<lparr>role = r, content = Some c, sources = None\<rparr>]\<rparr>)"

text \<open>
  \<open>sendMessage\<close> is asynchronous. Its body up to the \<open>await\<close> runs in the turn of the
  caller: the guard, the user entry, the flag and the backend call.
\<close>

definition sendMessage :: "string \<Rightarrow> page \<Rightarrow> page" where
  "sendMessage messageText s =
     (let trimmed = trim messageText in
      if trimmed = [] \<or> loadingRef s then s
      else
        let s1 = s\<lparr>input := []\<rparr>;
            s2 = appendMessage User trimmed s1
        in s2\<lparr>loadingRef := True, loading := True,
               calls := calls s2 @ [(trimmed, sessionId s2)]\<rparr>)"

text \<open>
  The rest runs when the promise settles. The remainder of the \<open>try\<close> block either
  throws the rejection or appends the assistant entry; \<open>catch\<close> absorbs what was thrown;
  \<open>finally\<close> clears the flag. The first component of the result is the exception that
  leaves \<open>sendMessage\<close>, if any.
\<close>

datatype 'a promise_result = Fulfilled 'a | Rejected string

definition sendMessage_try :: "ChatMessage promise_result \<Rightarrow> page \<Rightarrow> string option \<times> page" where
  "sendMessage_try r s =
     (case r of
        Rejected err \<Rightarrow> (Some err, s)
      | Fulfilled resp \<Rightarrow>
          (None, s\<lparr>messages := messages s @
             [\<lparr>role = Assistant, content = response resp,
               sources = response_sources resp\<rparr>]\<rparr>))"

definition sendMessage_catch :: "string option \<times> page \<Rightarrow> string option \<times> page" where
  "sendMessage_catch x =
     (case x of
        (Some err, s) \<Rightarrow> (None, appendMessage Assistant fallback s)
      | (None, s) \<Rightarrow> (None, s))"

definition sendMessage_finally :: "string option \<times> page \<Rightarrow> string option \<times> page" where
  "sendMessage_finally x =
     (case x of (thrown, s) \<Rightarrow>
        (thrown, s\<lparr>loadingRef := False, loading := False, settled := Suc (settled s)\<rparr>))"

definition sendMessage_resume :: "ChatMessage promise_result \<Rightarrow> page \<Rightarrow> string option \<times> page" where
  "sendMessage_resume r s = sendMessage_finally (sendMessage_catch (sendMessage_try r s))"

text \<open>The callback handed to the voice hook, the send button and the effect on \<open>loading\<close>.\<close>

definition page_onTranscription :: "role \<Rightarrow> string \<Rightarrow> page \<Rightarrow> page" where
  "page_onTranscription r text s =
     (if r = User then sendMessage text s else appendMessage r text s)"

definition handleSend :: "page \<Rightarrow> page" where
  "handleSend s = sendMessage (input s) s"

definition syncLoadingRef :: "page \<Rightarrow> page" where
  "syncLoadingRef s = s\<lparr>loadingRef := loading s\<rparr>"

definition outstanding :: "page \<Rightarrow> nat" where
  "outstanding s = length (calls s) - settled s"

section \<open>The voice session controller: the hook \<open>useVoiceChat\<close>\<close>

datatype VoiceStatus = Idle | Connecting | Ready | Error

text \<open>
  The hook's options. Both callbacks are optional and act on the state of the component
  that owns the hook, of type \<open>'p\<close>.
\<close>

record 'p UseVoiceChatOptions =
  onTranscription :: "(role \<Rightarrow> string \<Rightarrow> 'p \<Rightarrow> 'p) option"
  onStatus :: "(string \<Rightarrow> string option \<Rightarrow> 'p \<Rightarrow> 'p) option"

text \<open>
  A recognition object of the platform. A handler slot is \<open>True\<close> while it holds the
  closure that \<open>start\<close> installed, and \<open>False\<close> when it is \<open>null\<close>.
\<close>

record recognition =
  lang :: string
  interimResults :: bool
  continuous :: bool
  onstart :: bool
  onend :: bool
  onerror :: bool
  onresult :: bool

datatype platform_call = RecognitionStart nat | RecognitionStop nat

text \<open>
  The hook's state: three \<open>useState\<close> cells and two refs; \<open>recognitionRef\<close> holds the
  address of a recognition object in the store \<open>objects\<close>. Two fields only record what
  happened: the calls made to the platform, and the invocations of \<open>onTranscription\<close>.
\<close>

record hook =
  status :: VoiceStatus
  isRecording :: bool
  error :: "string option"
  recognitionRef :: "nat option"
  isRecordingRef :: bool
  objects :: "recognition list"
  platform_calls :: "platform_call list"
  transcriptions :: "(role \<times> string) list"

definition initial_hook :: hook where
  "initial_hook =
     \<lparr>status = Idle, isRecording = False, error = None, recognitionRef = None,
      isRecordingRef = False, objects = [], platform_calls = [], transcriptions = []\<rparr>"

text \<open>What the host decides when \<open>start\<close> runs.\<close>

record host =
  RecognitionClass :: bool
  navigator_language :: string
  start_throws :: bool

definition call_onStatus ::
  "'p UseVoiceChatOptions \<Rightarrow> string \<Rightarrow> string option \<Rightarrow> hook \<times> 'p \<Rightarrow> hook \<times> 'p" where
  "call_onStatus opts st msg w =
     (case onStatus opts of None \<Rightarrow> w | Some f \<Rightarrow> (fst w, f st msg (snd w)))"

definition call_onTranscription ::
  "'p UseVoiceChatOptions \<Rightarrow> role \<Rightarrow> string \<Rightarrow> hook \<times> 'p \<Rightarrow> hook \<times> 'p" where
  "call_onTranscription opts r text w =
     (case onTranscription opts of
        None \<Rightarrow> w
      | Some f \<Rightarrow>
          ((fst w)\<lparr>transcriptions := transcriptions (fst w) @ [(r, text)]\<rparr>, f r text (snd w)))"

definition detach :: "recognition \<Rightarrow> recognition" where
  "detach obj = obj\<lparr>onstart := False, onend := False, onerror := False, onresult := False\<rparr>"

text \<open>\<open>stop\<close>. What \<open>recognition.stop()\<close> throws is ignored, so only the call is recorded.\<close>

definition stop :: "hook \<times> 'p \<Rightarrow> hook \<times> 'p" where
  "stop w =
     (let h = (fst w)\<lparr>isRecordingRef := False, isRecording := False, status := Idle\<rparr>;
          recognition = recognitionRef h;
          h1 = h\<lparr>recognitionRef := None\<rparr>
      in case recognition of
           None \<Rightarrow> (h1, snd w)
         | Some r \<Rightarrow>
             (h1\<lparr>objects := (objects h1)[r := detach (objects h1 ! r)],
                  platform_calls := platform_calls h1 @ [RecognitionStop r]\<rparr>, snd w))"

text \<open>The four handlers that \<open>start\<close> installs, closed over the recognition object \<open>r\<close>.\<close>

definition recognition_onstart :: "'p UseVoiceChatOptions \<Rightarrow> hook \<times> 'p \<Rightarrow> hook \<times> 'p" where
  "recognition_onstart opts w =
     call_onStatus opts ''ready'' None ((fst w)\<lparr>status := Ready\<rparr>, snd w)"

definition recognition_onerror ::
  "'p UseVoiceChatOptions \<Rightarrow> string option \<Rightarrow> hook \<times> 'p \<Rightarrow> hook \<times> 'p" where
  "recognition_onerror opts event_error w =
     (let message =
            (case event_error of
               None \<Rightarrow> ''Speech recognition error''
             | Some e \<Rightarrow>
                 if e \<noteq> [] then ''Speech recognition error: '' @ e
                 else ''Speech recognition error'');
          w1 = call_onStatus opts ''error'' (Some message)
                 ((fst w)\<lparr>error := Some message, status := Error\<rparr>, snd w)
      in ((fst w1)\<lparr>isRecordingRef := False, isRecording := False\<rparr>, snd w1))"

definition recognition_onend ::
  "'p UseVoiceChatOptions \<Rightarrow> nat \<Rightarrow> bool \<Rightarrow> hook \<times> 'p \<Rightarrow> hook \<times> 'p" where
  "recognition_onend opts r restart_throws w =
     (if isRecordingRef (fst w) then
        let h = (fst w)\<lparr>status := Connecting\<rparr>;
            h1 = h\<lparr>platform_calls := platform_calls h @ [RecognitionStart r]\<rparr>
        in if restart_throws then
             let message = ''Speech recognition stopped unexpectedly'';
                 w1 = call_onStatus opts ''error'' (Some message)
                        (h1\<lparr>error := Some message, status := Error\<rparr>, snd w)
             in ((fst w1)\<lparr>isRecordingRef := False, isRecording := False\<rparr>, snd w1)
           else (h1, snd w)
      else call_onStatus opts ''idle'' None ((fst w)\<lparr>status := Idle\<rparr>, snd w))"

text \<open>
  A result of a recognition event: its \<open>isFinal\<close> flag and the transcript of its first
  alternative, \<open>result[0].transcript\<close>.
\<close>

record SpeechRecognitionResult =
  isFinal :: bool
  transcript :: string

record SpeechRecognitionEvent =
  resultIndex :: nat
  results :: "SpeechRecognitionResult list"

text \<open>The \<open>for\<close> loop of \<open>onresult\<close>, over the results from \<open>resultIndex\<close> on.\<close>

fun final_loop :: "SpeechRecognitionResult list \<Rightarrow> string \<Rightarrow> string" where
  "final_loop [] finalText = finalText"
| "final_loop (result # rest) finalText =
     final_loop rest (if isFinal result then finalText @ transcript result else finalText)"

definition recognition_onresult ::
  "'p UseVoiceChatOptions \<Rightarrow> SpeechRecognitionEvent \<Rightarrow> hook \<times> 'p \<Rightarrow> hook \<times> 'p" where
  "recognition_onresult opts event w =
     (let finalText = final_loop (drop (resultIndex event) (results event)) [];
          finalText' = trim finalText
      in if finalText' \<noteq> [] then call_onTranscription opts User finalText' w else w)"

definition start :: "'p UseVoiceChatOptions \<Rightarrow> host \<Rightarrow> hook \<times> 'p \<Rightarrow> hook \<times> 'p" where
  "start opts env w =
     (if recognitionRef (fst w) \<noteq> None \<or> isRecordingRef (fst w) then w
      else if \<not> RecognitionClass env then
        let message = ''Speech recognition is not supported in this browser''
        in call_onStatus opts ''error'' (Some message)
             ((fst w)\<lparr>error := Some message, status := Error\<rparr>, snd w)
      else
        let r = length (objects (fst w));
            recognition =
              \<lparr>lang = (if navigator_language env \<noteq> [] then navigator_language env else ''en-US''),
               interimResults = True, continuous = True,
               onstart = True, onend = True, onerror = True, onresult = True\<rparr>;
            h = (fst w)\<lparr>objects := objects (fst w) @ [recognition]\<rparr>;
            h1 = h\<lparr>error := None, status := Connecting, isRecording := True,
                    isRecordingRef := True, recognitionRef := Some r\<rparr>;
            h2 = h1\<lparr>platform_calls := platform_calls h1 @ [RecognitionStart r]\<rparr>
        in if start_throws env then
             let message = ''Failed to start speech recognition'';
                 w1 = call_onStatus opts ''error'' (Some message)
                        (h2\<lparr>error := Some message, status := Error\<rparr>, snd w)
             in ((fst w1)\<lparr>isRecordingRef := False, isRecording := False,
                          recognitionRef := None\<rparr>, snd w1)
           else (h2, snd w))"

text \<open>
  A signal of the platform on the recognition object at address \<open>r\<close> runs the handler in
  the matching slot, if there is one. \<open>Ended b\<close> carries whether a \<open>recognition.start()\<close>
  issued by the handler would throw.
\<close>

datatype signal =
  Started | Errored "string option" | Ended bool | Result SpeechRecognitionEvent

definition deliver ::
  "'p UseVoiceChatOptions \<Rightarrow> nat \<Rightarrow> signal \<Rightarrow> hook \<times> 'p \<Rightarrow> hook \<times> 'p" where
  "deliver opts r sig w =
     (if r < length (objects (fst w)) then
        let obj = objects (fst w) ! r in
        case sig of
          Started \<Rightarrow> if onstart obj then recognition_onstart opts w else w
        | Errored e \<Rightarrow> if onerror obj then recognition_onerror opts e w else w
        | Ended b \<Rightarrow> if onend obj then recognition_onend opts r b w else w
        | Result ev \<Rightarrow> if onresult obj then recognition_onresult opts ev w else w
      else w)"

section \<open>The page and its hook together\<close>

definition page_options :: "page UseVoiceChatOptions" where
  "page_options = \<lparr>onTranscription = Some page_onTranscription, onStatus = None\<rparr>"

definition voiceActive :: "hook \<Rightarrow> bool" where
  "voiceActive h = (status h = Ready \<or> status h = Connecting)"

definition toggleVoice :: "host \<Rightarrow> hook \<times> page \<Rightarrow> hook \<times> page" where
  "toggleVoice env w = (if voiceActive (fst w) then stop w else start page_options env w)"

text \<open>
  The events of the page: typing, the send button, the settling of an outstanding backend
  call, the effect on \<open>loading\<close>, the hook's operations, the microphone button, and the
  platform's signals.
\<close>

datatype event =
  ChangeInput string
| HandleSend
| Settle "ChatMessage promise_result"
| SyncLoadingRef
| StartVoice host
| StopVoice
| ToggleVoice host
| Platform nat signal

fun step :: "event \<Rightarrow> hook \<times> page \<Rightarrow> hook \<times> page" where
  "step (ChangeInput v) w = (fst w, (snd w)\<lparr>input := v\<rparr>)"
| "step HandleSend w = (fst w, handleSend (snd w))"
| "step (Settle r) w =
     (if 0 < outstanding (snd w) then (fst w, snd (sendMessage_resume r (snd w))) else w)"
| "step SyncLoadingRef w = (fst w, syncLoadingRef (snd w))"
| "step (StartVoice env) w = start page_options env w"
| "step StopVoice w = stop w"
| "step (ToggleVoice env) w = toggleVoice env w"
| "step (Platform r sig) w = deliver page_options r sig w"

fun run :: "event list \<Rightarrow> hook \<times> page \<Rightarrow> hook \<times> page" where
  "run [] w = w"
| "run (e # es) w = run es (step e w)"

definition initial :: "string \<Rightarrow> hook \<times> page" where
  "initial sid = (initial_hook, initial_page sid)"

section \<open>Invariants of the page\<close>

text \<open>
  What holds of the page in every state it can reach: the \<open>loading\<close> cell agrees with
  the ref, the ref is set exactly while one call has not settled, and the transcript ends
  with a user entry while a call is outstanding and with an assistant entry otherwise.
\<close>

definition page_inv :: "page \<Rightarrow> bool" where
  "page_inv p \<longleftrightarrow>
     loading p = loadingRef p \<and>
     length (calls p) = settled p + (if loadingRef p then 1 else 0) \<and>
     messages p \<noteq> [] \<and>
     role (last (messages p)) = (if loadingRef p then User else Assistant)"

text \<open>
  \<open>in_flight p p'\<close>: the page \<open>p'\<close> is still waiting for the call that \<open>p\<close> issued, with
  the transcript and the calls of \<open>p\<close>.
\<close>

fun is_settle :: "event \<Rightarrow> bool" where
  "is_settle (Settle r) = True"
| "is_settle e = False"

definition in_flight :: "page \<Rightarrow> page \<Rightarrow> bool" where
  "in_flight p p' \<longleftrightarrow>
     loadingRef p' \<and> loading p' \<and> messages p' = messages p \<and> calls p' = calls p \<and>
     settled p' = settled p \<and> sessionId p' = sessionId p"

section \<open>Invariants of the hook\<close>

text \<open>
  What holds of the hook in every state it can reach: the ref points to an allocated
  recognition object, listening intent is set only while there is one, and the
  \<open>isRecording\<close> cell agrees with its ref.
\<close>

definition hook_inv :: "hook \<Rightarrow> bool" where
  "hook_inv h \<longleftrightarrow>
     (case recognitionRef h of None \<Rightarrow> \<not> isRecordingRef h | Some r \<Rightarrow> r < length (objects h)) \<and>
     isRecording h = isRecordingRef h"

text \<open>A recognition object all of whose handler slots are \<open>null\<close>.\<close>

definition detached :: "nat \<Rightarrow> hook \<Rightarrow> bool" where
  "detached r h \<longleftrightarrow>
     r < length (objects h) \<and> objects h ! r = detach (objects h ! r)"

text \<open>
  Whether an event calls \<open>stop\<close>: the microphone button does so while the voice is active
  and calls \<open>start\<close> otherwise. \<open>no_stop evs w\<close>: none of the events \<open>evs\<close>, run in turn
  from \<open>w\<close>, calls \<open>stop\<close>.
\<close>

definition calls_stop :: "event \<Rightarrow> hook \<times> page \<Rightarrow> bool" where
  "calls_stop e w =
     (case e of StopVoice \<Rightarrow> True | ToggleVoice env \<Rightarrow> voiceActive (fst w) | _ \<Rightarrow> False)"

fun no_stop :: "event list \<Rightarrow> hook \<times> page \<Rightarrow> bool" where
  "no_stop [] w = True"
| "no_stop (e # es) w = (\<not> calls_stop e w \<and> no_stop es (step e w))"

text \<open>
  \<open>held h h'\<close>: the hook \<open>h'\<close> still holds the recognition object and the objects of \<open>h\<close>,
  and an error message.
\<close>

definition held :: "hook \<Rightarrow> hook \<Rightarrow> bool" where
  "held h h' \<longleftrightarrow>
     recognitionRef h' = recognitionRef h \<and> objects h' = objects h \<and> error h' \<noteq> None"

text \<open>A sequence of platform signals, each on some recognition object.\<close>

fun deliver_all ::
  "'p UseVoiceChatOptions \<Rightarrow> (nat \<times> signal) list \<Rightarrow> hook \<times> 'p \<Rightarrow> hook \<times> 'p" where
  "deliver_all opts [] w = w"
| "deliver_all opts (x # rest) w = deliver_all opts rest (deliver opts (fst x) (snd x) w)"

text \<open>
  The emissions that a reading of the \<open>result\<close> signal as "one callback per finalized
  utterance" asks for: each finalized result on its own, trimmed, unless blank. It is
  compared with what \<open>recognition_onresult\<close> does.
\<close>

definition per_utterance_emissions :: "SpeechRecognitionEvent \<Rightarrow> (role \<times> string) list" where
  "per_utterance_emissions event =
     map (\<lambda>result. (User, trim (transcript result)))
       (filter (\<lambda>result. isFinal result \<and> trim (transcript result) \<noteq> []) (results event))"

section \<open>Basic facts\<close>

lemma dropWhile_all_set: "(\<forall>x\<in>set (dropWhile P xs). P x) \<longleftrightarrow> (\<forall>x\<in>set xs. P x)"
proof
  assume a: "\<forall>x\<in>set (dropWhile P xs). P x"
  have "dropWhile P xs = []"
  proof (rule ccontr)
    assume ne: "dropWhile P xs \<noteq> []"
    then have "hd (dropWhile P xs) \<in> set (dropWhile P xs)" by (rule hd_in_set)
    moreover have "\<not> P (hd (dropWhile P xs))" using ne by (rule hd_dropWhile)
    ultimately show False using a by blast
  qed
  then show "\<forall>x\<in>set xs. P x" by (simp only: dropWhile_eq_Nil_conv)
next
  assume "\<forall>x\<in>set xs. P x"
  then show "\<forall>x\<in>set (dropWhile P xs). P x" by (blast dest: set_dropWhileD)
qed

lemma trim_empty_iff: "trim s = [] \<longleftrightarrow> whitespace_only s"
  by (simp add: trim_def whitespace_only_def list_all_iff dropWhile_all_set)

lemmas page_defs = sendMessage_def appendMessage_def sendMessage_resume_def sendMessage_try_def
  sendMessage_catch_def sendMessage_finally_def page_onTranscription_def handleSend_def
  syncLoadingRef_def outstanding_def

lemma page_inv_initial: "page_inv (initial_page sid)"
  by (simp add: page_inv_def initial_page_def)

lemma sendMessage_busy: "loadingRef p \<Longrightarrow> sendMessage t p = p"
  by (simp add: sendMessage_def)

lemma sendMessage_blank: "trim t = [] \<Longrightarrow> sendMessage t p = p"
  by (simp add: sendMessage_def)

lemma sendMessage_admitted:
  assumes "\<not> loadingRef p" "trim t \<noteq> []"
  shows "sendMessage t p =
           (appendMessage User (trim t) (p\<lparr>input := []\<rparr>))
             \<lparr>loadingRef := True, loading := True, calls := calls p @ [(trim t, sessionId p)]\<rparr>"
  using assms by (simp add: sendMessage_def appendMessage_def Let_def)

lemma page_inv_sendMessage: "page_inv p \<Longrightarrow> page_inv (sendMessage t p)"
  by (simp add: page_inv_def sendMessage_def appendMessage_def Let_def)

lemma page_inv_resume:
  "page_inv p \<Longrightarrow> loadingRef p \<Longrightarrow> page_inv (snd (sendMessage_resume r p))"
  by (cases r) (simp_all add: page_inv_def page_defs Let_def)

lemma outstanding_inv: "page_inv p \<Longrightarrow> outstanding p = (if loadingRef p then 1 else 0)"
  by (simp add: page_inv_def outstanding_def)

lemma page_options_simps:
  "onStatus page_options = None" "onTranscription page_options = Some page_onTranscription"
  by (simp_all add: page_options_def)

lemma fst_call_onStatus: "fst (call_onStatus opts st msg w) = fst w"
  by (simp add: call_onStatus_def split: option.split)

lemma call_onStatus_page: "call_onStatus page_options st msg w = w"
  by (simp add: call_onStatus_def page_options_simps)

lemma snd_start_page: "snd (start page_options env w) = snd w"
  by (simp add: start_def Let_def call_onStatus_page)

lemma snd_stop: "snd (stop w) = snd w"
  by (simp add: stop_def Let_def split: option.split)

lemma snd_deliver_page:
  "snd (deliver page_options r sig w) = snd w \<or>
   (\<exists>t. snd (deliver page_options r sig w) = sendMessage t (snd w))"
  by (cases sig)
     (auto simp: deliver_def Let_def recognition_onstart_def recognition_onerror_def
        recognition_onend_def recognition_onresult_def call_onStatus_page
        call_onTranscription_def page_options_simps page_onTranscription_def)

lemma snd_step_cases:
  "snd (step e w) = snd w \<or> (\<exists>t. snd (step e w) = sendMessage t (snd w)) \<or>
   (\<exists>v. e = ChangeInput v \<and> snd (step e w) = (snd w)\<lparr>input := v\<rparr>) \<or>
   (e = SyncLoadingRef \<and> snd (step e w) = syncLoadingRef (snd w)) \<or>
   (\<exists>r. e = Settle r \<and> 0 < outstanding (snd w) \<and> snd (step e w) = snd (sendMessage_resume r (snd w)))"
proof (cases e)
  case (Platform r sig)
  then show ?thesis using snd_deliver_page[of r sig w] by auto
qed (auto simp: snd_start_page snd_stop toggleVoice_def handleSend_def)

lemma page_inv_step: "page_inv (snd w) \<Longrightarrow> page_inv (snd (step e w))"
  using snd_step_cases[of e w]
  by (auto simp: page_inv_sendMessage page_inv_resume outstanding_inv split: if_splits)
     (simp_all add: page_inv_def syncLoadingRef_def)

lemma page_inv_run: "page_inv (snd w) \<Longrightarrow> page_inv (snd (run evs w))"
  by (induction evs arbitrary: w) (simp_all add: page_inv_step)

lemma page_inv_reachable: "page_inv (snd (run evs (initial sid)))"
  by (rule page_inv_run) (simp add: initial_def page_inv_initial)


lemma in_flight_step:
  assumes "in_flight p (snd w)" "\<not> is_settle e"
  shows "in_flight p (snd (step e w))"
  using snd_step_cases[of e w] assms
  by (auto simp: sendMessage_busy in_flight_def syncLoadingRef_def)

lemma in_flight_run:
  "in_flight p (snd w) \<Longrightarrow> \<forall>e\<in>set evs. \<not> is_settle e \<Longrightarrow> in_flight p (snd (run evs w))"
  by (induction evs arbitrary: w) (simp_all add: in_flight_step)

lemma fst_step_Settle: "fst (step (Settle r) w) = fst w"
  by simp

lemma admitted_facts:
  assumes inv: "page_inv p" and idle: "\<not> loadingRef p" and ne: "trim text \<noteq> []"
  shows "messages (sendMessage text p) =
           messages p @ [\<lparr>role = User, content = Some (trim text), sources = None\<rparr>]"
    and "calls (sendMessage text p) = calls p @ [(trim text, sessionId p)]"
    and "sessionId (sendMessage text p) = sessionId p"
    and "in_flight (sendMessage text p) (sendMessage text p)"
    and "page_inv (sendMessage text p)"
  using assms page_inv_sendMessage[OF inv, of "text"]
  by (simp_all add: sendMessage_admitted appendMessage_def in_flight_def page_inv_def)

lemma settle_facts:
  assumes inv: "page_inv p" and busy: "loadingRef p"
  shows "snd (step (Settle r) (h, p)) = snd (sendMessage_resume r p)"
    and "fst (sendMessage_resume r p) = None"
    and "\<not> loadingRef (snd (sendMessage_resume r p))"
    and "calls (snd (sendMessage_resume r p)) = calls p"
    and "outstanding (snd (sendMessage_resume r p)) = 0"
    and "sessionId (snd (sendMessage_resume r p)) = sessionId p"
    and "messages (snd (sendMessage_resume r p)) = messages p @
           [case r of
              Fulfilled resp \<Rightarrow> \<lparr>role = Assistant, content = response resp,
                                 sources = response_sources resp\<rparr>
            | Rejected err \<Rightarrow> \<lparr>role = Assistant, content = Some fallback, sources = None\<rparr>]"
  using assms by (cases r; simp add: page_inv_def page_defs Let_def)+

lemma sessionId_sendMessage: "sessionId (sendMessage t p) = sessionId p"
  by (simp add: sendMessage_def appendMessage_def Let_def)

lemma sessionId_resume: "sessionId (snd (sendMessage_resume r p)) = sessionId p"
  by (cases r) (simp_all add: page_defs Let_def)

lemma sessionId_step: "sessionId (snd (step e w)) = sessionId (snd w)"
  using snd_step_cases[of e w]
  by (auto simp: sessionId_sendMessage sessionId_resume syncLoadingRef_def)

lemma sessionId_run: "sessionId (snd (run evs w)) = sessionId (snd w)"
  by (induction evs arbitrary: w) (simp_all add: sessionId_step)

lemma sessionId_reachable: "sessionId (snd (run evs (initial sid))) = sid"
  by (simp add: sessionId_run initial_def initial_page_def)

section \<open>Facts about the hook\<close>

lemmas hook_defs = start_def stop_def recognition_onstart_def recognition_onerror_def
  recognition_onend_def recognition_onresult_def call_onStatus_def call_onTranscription_def

lemma final_loop_concat:
  "final_loop rs acc = acc @ concat (map transcript (filter isFinal rs))"
  by (induction rs arbitrary: acc) simp_all

lemma detach_slots:
  "obj = detach obj \<longleftrightarrow> \<not> onstart obj \<and> \<not> onend obj \<and> \<not> onerror obj \<and> \<not> onresult obj"
  by (cases obj) (auto simp: detach_def)

lemma detach_detach: "detach (detach obj) = detach obj"
  by (simp add: detach_def)

lemma handlers_keep:
  "objects (fst (recognition_onstart opts w)) = objects (fst w)"
  "objects (fst (recognition_onerror opts e w)) = objects (fst w)"
  "objects (fst (recognition_onend opts r b w)) = objects (fst w)"
  "objects (fst (recognition_onresult opts ev w)) = objects (fst w)"
  "recognitionRef (fst (recognition_onstart opts w)) = recognitionRef (fst w)"
  "recognitionRef (fst (recognition_onerror opts e w)) = recognitionRef (fst w)"
  "recognitionRef (fst (recognition_onend opts r b w)) = recognitionRef (fst w)"
  "recognitionRef (fst (recognition_onresult opts ev w)) = recognitionRef (fst w)"
  by (simp_all add: hook_defs Let_def split: option.split)

lemma deliver_keep:
  "objects (fst (deliver opts r sig w)) = objects (fst w)"
  "recognitionRef (fst (deliver opts r sig w)) = recognitionRef (fst w)"
  by (cases sig; simp add: deliver_def Let_def handlers_keep)+

lemma deliver_detached: "detached r (fst w) \<Longrightarrow> deliver opts r sig w = w"
  by (cases sig) (simp_all add: deliver_def detached_def detach_slots Let_def)

lemma detached_stop:
  "recognitionRef (fst w) = Some r \<Longrightarrow> r < length (objects (fst w)) \<Longrightarrow> detached r (fst (stop w))"
  by (simp add: stop_def detached_def detach_detach Let_def)

lemma detached_after_stop:
  assumes "detached r (fst w)"
  shows "detached r (fst (stop w))"
proof (cases "recognitionRef (fst w)")
  case None
  then show ?thesis using assms by (simp add: stop_def detached_def Let_def)
next
  case (Some a)
  show ?thesis
  proof (cases "a = r")
    case True
    then show ?thesis using assms Some
      by (simp add: stop_def detached_def detach_detach Let_def)
  next
    case False
    then show ?thesis using assms Some
      by (simp add: stop_def detached_def Let_def)
  qed
qed

lemma detached_after_start: "detached r (fst w) \<Longrightarrow> detached r (fst (start opts env w))"
  by (simp add: start_def detached_def Let_def fst_call_onStatus nth_append call_onStatus_def
      split: option.split)

lemma detached_step:
  assumes "detached r (fst w)"
  shows "detached r (fst (step e w))"
proof (cases e)
  case (StartVoice env)
  then show ?thesis using assms by (simp add: detached_after_start)
next
  case StopVoice
  then show ?thesis using assms by (simp add: detached_after_stop)
next
  case (ToggleVoice env)
  then show ?thesis using assms
    by (simp add: toggleVoice_def detached_after_start detached_after_stop)
next
  case (Platform r' sig)
  then show ?thesis using assms by (simp add: detached_def deliver_keep)
qed (use assms in simp_all)

lemma detached_run: "detached r (fst w) \<Longrightarrow> detached r (fst (run evs w))"
  by (induction evs arbitrary: w) (simp_all add: detached_step)

lemma hook_inv_initial: "hook_inv initial_hook"
  by (simp add: hook_inv_def initial_hook_def)

lemma hook_inv_stop: "hook_inv (fst (stop w))"
  by (simp add: hook_inv_def stop_def Let_def split: option.split)

lemma hook_inv_start: "hook_inv (fst w) \<Longrightarrow> hook_inv (fst (start opts env w))"
  by (simp add: hook_inv_def start_def call_onStatus_def Let_def split: option.splits)

lemma hook_inv_deliver: "hook_inv (fst w) \<Longrightarrow> hook_inv (fst (deliver opts r sig w))"
  by (cases sig)
     (auto simp: hook_inv_def deliver_def hook_defs Let_def split: option.splits)

lemma hook_inv_step: "hook_inv (fst w) \<Longrightarrow> hook_inv (fst (step e w))"
  by (cases e) (simp_all add: hook_inv_stop hook_inv_start hook_inv_deliver toggleVoice_def)

lemma hook_inv_run: "hook_inv (fst w) \<Longrightarrow> hook_inv (fst (run evs w))"
  by (induction evs arbitrary: w) (simp_all add: hook_inv_step)

lemma hook_inv_reachable: "hook_inv (fst (run evs (initial sid)))"
  by (rule hook_inv_run) (simp add: initial_def hook_inv_initial)

lemma quiet_deliver:
  assumes "\<not> isRecordingRef (fst w)"
  shows "\<not> isRecordingRef (fst (deliver opts r sig w)) \<and>
         platform_calls (fst (deliver opts r sig w)) = platform_calls (fst w)"
  using assms
  by (cases sig) (simp_all add: deliver_def hook_defs Let_def split: option.split)

lemma quiet_deliver_all:
  "\<not> isRecordingRef (fst w) \<Longrightarrow>
     platform_calls (fst (deliver_all opts sigs w)) = platform_calls (fst w)"
  by (induction sigs arbitrary: w) (simp_all add: quiet_deliver)

lemma stop_stop: "stop (stop w) = stop w"
  by (simp add: stop_def Let_def split: option.split)

lemma hook_status_only:
  "\<not> isRecordingRef h \<Longrightarrow> \<not> isRecording h \<Longrightarrow> recognitionRef h = None \<Longrightarrow>
     h\<lparr>isRecordingRef := False, isRecording := False, status := Idle, recognitionRef := None\<rparr> =
     h\<lparr>status := Idle\<rparr>"
  by (cases h) simp

lemma start_held: "recognitionRef (fst w) \<noteq> None \<Longrightarrow> start opts env w = w"
  by (simp add: start_def)

lemma deliver_error_kept:
  "error (fst w) \<noteq> None \<Longrightarrow> error (fst (deliver opts r sig w)) \<noteq> None"
  by (cases sig) (simp_all add: deliver_def hook_defs Let_def split: option.split)

lemma held_step:
  assumes "recognitionRef h \<noteq> None" "held h (fst w)" "\<not> calls_stop e w"
  shows "held h (fst (step e w))"
proof (cases e)
  case (StartVoice env)
  then show ?thesis using assms by (simp add: held_def start_held)
next
  case StopVoice
  then show ?thesis using assms by (simp add: calls_stop_def)
next
  case (ToggleVoice env)
  then show ?thesis using assms by (simp add: held_def calls_stop_def toggleVoice_def start_held)
next
  case (Platform r sig)
  then show ?thesis using assms by (simp add: held_def deliver_keep deliver_error_kept)
qed (use assms in simp_all)

lemma held_run:
  "recognitionRef h \<noteq> None \<Longrightarrow> held h (fst w) \<Longrightarrow> no_stop evs w \<Longrightarrow> held h (fst (run evs w))"
  by (induction evs arbitrary: w) (simp_all add: held_step)

section \<open>One exchange with the backend\<close>

text \<open>
  One exchange, from the page's initial state: after any events, with no call outstanding,
  a submission that is not blank is made; then any events other than a settling follow;
  then the call settles with \<open>r\<close>.
\<close>

lemma exchange:
  assumes idle: "\<not> loadingRef (snd (run evs0 (initial sid)))"
    and ne: "trim text \<noteq> []"
    and quiet: "\<forall>e\<in>set evs. \<not> is_settle e"
  shows "let w = run evs0 (initial sid);
             w1 = (fst w, sendMessage text (snd w));
             w2 = run evs w1;
             w3 = step (Settle r) w2
         in calls (snd w1) = calls (snd w) @ [(trim text, sessionId (snd w))] \<and>
            messages (snd w2) =
              messages (snd w) @ [\<lparr>role = User, content = Some (trim text), sources = None\<rparr>] \<and>
            calls (snd w2) = calls (snd w1) \<and> outstanding (snd w2) = 1 \<and>
            fst (sendMessage_resume r (snd w2)) = None \<and>
            fst w3 = fst w2 \<and>
            messages (snd w3) =
              messages (snd w) @
                [\<lparr>role = User, content = Some (trim text), sources = None\<rparr>,
                 case r of
                   Fulfilled resp \<Rightarrow> \<lparr>role = Assistant, content = response resp,
                                      sources = response_sources resp\<rparr>
                 | Rejected err \<Rightarrow> \<lparr>role = Assistant, content = Some fallback, sources = None\<rparr>] \<and>
            calls (snd w3) = calls (snd w1) \<and>
            \<not> loadingRef (snd w3) \<and> outstanding (snd w3) = 0"
proof -
  define w where "w = run evs0 (initial sid)"
  define p1 where "p1 = sendMessage text (snd w)"
  define w2 where "w2 = run evs (fst w, p1)"
  have inv: "page_inv (snd w)" unfolding w_def by (rule page_inv_reachable)
  have idle': "\<not> loadingRef (snd w)" using idle by (simp add: w_def)
  note adm = admitted_facts[OF inv idle' ne, folded p1_def]
  have fl: "in_flight p1 (snd w2)"
    unfolding w2_def using adm(4) quiet by (intro in_flight_run) simp_all
  have inv2: "page_inv (snd w2)"
    unfolding w2_def using adm(5) by (intro page_inv_run) simp
  have busy2: "loadingRef (snd w2)" using fl by (simp add: in_flight_def)
  have m2: "messages (snd w2) = messages p1" and c2: "calls (snd w2) = calls p1"
    using fl by (simp_all add: in_flight_def)
  have o2: "outstanding (snd w2) = 1" using outstanding_inv[OF inv2] busy2 by simp
  note st = settle_facts[OF inv2 busy2]
  have w3: "step (Settle r) w2 = (fst w2, snd (sendMessage_resume r (snd w2)))"
    using o2 by simp
  have "calls p1 = calls (snd w) @ [(trim text, sessionId (snd w))] \<and>
        messages (snd w2) =
          messages (snd w) @ [\<lparr>role = User, content = Some (trim text), sources = None\<rparr>] \<and>
        calls (snd w2) = calls p1 \<and> outstanding (snd w2) = 1 \<and>
        fst (sendMessage_resume r (snd w2)) = None \<and>
        fst (step (Settle r) w2) = fst w2 \<and>
        messages (snd (step (Settle r) w2)) =
          messages (snd w) @
            [\<lparr>role = User, content = Some (trim text), sources = None\<rparr>,
             case r of
               Fulfilled resp \<Rightarrow> \<lparr>role = Assistant, content = response resp,
                                  sources = response_sources resp\<rparr>
             | Rejected err \<Rightarrow> \<lparr>role = Assistant, content = Some fallback, sources = None\<rparr>] \<and>
        calls (snd (step (Settle r) w2)) = calls p1 \<and>
        \<not> loadingRef (snd (step (Settle r) w2)) \<and> outstanding (snd (step (Settle r) w2)) = 0"
    unfolding w3 using adm(1,2) m2 c2 o2 st(2-7) by simp
  then show ?thesis unfolding Let_def w2_def p1_def w_def by (simp del: step.simps)
qed


section \<open>The claims about the conversation pipeline\<close>

text \<open>
  C8. A string that is empty or consists of white space only is dropped by \<open>sendMessage\<close>,
  whether it arrives from the voice callback or from the send button: the page is left as
  it was, so no transcript entry is appended and no backend call is issued.
\<close>

theorem C8_blank_utterance_dropped:
  "whitespace_only text \<Longrightarrow>
     sendMessage text s = s \<and> page_onTranscription User text s = s \<and>
     handleSend (s\<lparr>input := text\<rparr>) = s\<lparr>input := text\<rparr>"
  by (simp add: trim_empty_iff sendMessage_blank page_onTranscription_def handleSend_def)

theorem C8_blank_utterance_dropped_witness:
  "whitespace_only [CHR 0x20, CHR 0x09, CHR 0x0A] \<and>
   sendMessage [CHR 0x20, CHR 0x09, CHR 0x0A] (initial_page ''s1'') = initial_page ''s1'' \<and>
   page_onTranscription User [CHR 0x20, CHR 0x09, CHR 0x0A] (initial_page ''s1'') = initial_page ''s1'' \<and>
   messages (handleSend ((initial_page ''s1'')\<lparr>input := [CHR 0x20, CHR 0x09, CHR 0x0A]\<rparr>)) =
     messages (initial_page ''s1'') \<and>
   calls (handleSend ((initial_page ''s1'')\<lparr>input := [CHR 0x20, CHR 0x09, CHR 0x0A]\<rparr>)) = []"
proof -
  have h: "whitespace_only [CHR 0x20, CHR 0x09, CHR 0x0A]"
    by (simp add: whitespace_only_def is_ws_def)
  show ?thesis
    using h C8_blank_utterance_dropped[OF h, of "initial_page ''s1''"]
    by (simp add: initial_page_def)
qed

text \<open>
  C3. \<open>appendMessage\<close> leaves the page as it is when the last transcript entry has the same
  role and content; and a submission that follows another of the same trimmed text at once
  changes nothing, so that the two together append the user entry at most once.
\<close>

theorem C3_adjacent_duplicate_guard:
  "(messages s \<noteq> [] \<and> role (last (messages s)) = r \<and> content (last (messages s)) = Some c
      \<longrightarrow> appendMessage r c s = s) \<and>
   (trim t2 = trim t1 \<longrightarrow>
      sendMessage t2 (sendMessage t1 s) = sendMessage t1 s \<and>
      messages (sendMessage t2 (sendMessage t1 s)) =
        (if trim t1 = [] \<or> loadingRef s \<or>
            (messages s \<noteq> [] \<and> role (last (messages s)) = User \<and>
             content (last (messages s)) = Some (trim t1))
         then messages s
         else messages s @ [\<lparr>role = User, content = Some (trim t1), sources = None\<rparr>]))"
  by (simp add: sendMessage_def appendMessage_def Let_def)

theorem C3_adjacent_duplicate_guard_witness:
  "appendMessage Assistant greeting (initial_page ''s1'') = initial_page ''s1'' \<and>
   trim ''hi '' = trim '' hi'' \<and>
   sendMessage ''hi '' (sendMessage '' hi'' (initial_page ''s1'')) =
     sendMessage '' hi'' (initial_page ''s1'') \<and>
   messages (sendMessage ''hi '' (sendMessage '' hi'' (initial_page ''s1''))) =
     messages (initial_page ''s1'') @ [\<lparr>role = User, content = Some ''hi'', sources = None\<rparr>]"
proof -
  have t: "trim ''hi '' = trim '' hi''" and v: "trim '' hi'' = ''hi''"
    by (simp_all add: trim_def is_ws_def)
  show ?thesis
    using t C3_adjacent_duplicate_guard[of "initial_page ''s1''" Assistant greeting "''hi ''" "'' hi''"]
    by (auto simp: v initial_page_def)
qed


text \<open>
  C2. In every state the page can reach at most one backend call is outstanding, and
  \<open>loadingRef\<close> is set exactly then. While one is outstanding, a further submission leaves
  the page as it is, and no event other than the settling of the call changes the
  transcript or issues a call. Once the call has settled none is outstanding, and a
  submission that is not blank issues exactly one new call.
\<close>

theorem C2_single_flight:
  "let w = run evs (initial sid); p = snd w in
     outstanding p \<le> 1 \<and> (loadingRef p \<longleftrightarrow> outstanding p = 1) \<and>
     (outstanding p = 1 \<longrightarrow>
        sendMessage text p = p \<and>
        (\<forall>e. \<not> is_settle e \<longrightarrow>
           messages (snd (step e w)) = messages p \<and> calls (snd (step e w)) = calls p \<and>
           outstanding (snd (step e w)) = 1) \<and>
        (\<forall>r. let p' = snd (step (Settle r) w) in
           outstanding p' = 0 \<and> \<not> loadingRef p' \<and>
           (trim text \<noteq> [] \<longrightarrow>
              calls (sendMessage text p') = calls p' @ [(trim text, sessionId p')] \<and>
              outstanding (sendMessage text p') = 1)))"
proof -
  define w where "w = run evs (initial sid)"
  define p where "p = snd w"
  have inv: "page_inv p" unfolding p_def w_def by (rule page_inv_reachable)
  have out: "outstanding p = (if loadingRef p then 1 else 0)" using inv by (rule outstanding_inv)
  have busy: "sendMessage text p = p" if "loadingRef p" using that by (rule sendMessage_busy)
  have other: "messages (snd (step e w)) = messages p \<and> calls (snd (step e w)) = calls p \<and>
      outstanding (snd (step e w)) = 1" if b: "loadingRef p" and e: "\<not> is_settle e" for e
  proof -
    have "in_flight p (snd w)" using b inv by (simp add: in_flight_def p_def page_inv_def)
    then have "in_flight p (snd (step e w))" using e by (rule in_flight_step)
    then show ?thesis using out b by (simp add: in_flight_def outstanding_def)
  qed
  have after: "outstanding p' = 0 \<and> \<not> loadingRef p' \<and>
      (trim text \<noteq> [] \<longrightarrow>
         calls (sendMessage text p') = calls p' @ [(trim text, sessionId p')] \<and>
         outstanding (sendMessage text p') = 1)"
    if b: "loadingRef p" and p': "p' = snd (step (Settle r) w)" for r p'
  proof -
    have eq: "p' = snd (sendMessage_resume r p)"
      using settle_facts(1)[OF inv b, of r "fst w"] p' by (simp add: p_def)
    have inv': "page_inv p'" unfolding eq using inv b by (rule page_inv_resume)
    have idle: "\<not> loadingRef p'" unfolding eq using inv b by (rule settle_facts(3))
    have "outstanding p' = 0" unfolding eq using inv b by (rule settle_facts(5))
    moreover have "calls (sendMessage text p') = calls p' @ [(trim text, sessionId p')]"
      if "trim text \<noteq> []" using inv' idle that by (rule admitted_facts(2))
    moreover have "outstanding (sendMessage text p') = 1" if "trim text \<noteq> []"
      using admitted_facts(5)[OF inv' idle that] sendMessage_admitted[OF idle that]
      by (simp add: outstanding_inv)
    ultimately show ?thesis using idle by simp
  qed
  have "outstanding p \<le> 1 \<and> (loadingRef p \<longleftrightarrow> outstanding p = 1) \<and>
     (outstanding p = 1 \<longrightarrow>
        sendMessage text p = p \<and>
        (\<forall>e. \<not> is_settle e \<longrightarrow>
           messages (snd (step e w)) = messages p \<and> calls (snd (step e w)) = calls p \<and>
           outstanding (snd (step e w)) = 1) \<and>
        (\<forall>r. let p' = snd (step (Settle r) w) in
           outstanding p' = 0 \<and> \<not> loadingRef p' \<and>
           (trim text \<noteq> [] \<longrightarrow>
              calls (sendMessage text p') = calls p' @ [(trim text, sessionId p')] \<and>
              outstanding (sendMessage text p') = 1)))"
  proof (cases "loadingRef p")
    case True
    show ?thesis
      unfolding Let_def
      using out True busy[OF True] other[OF True] after[OF True refl]
      by (intro conjI impI allI) simp_all
  next
    case False
    then show ?thesis using out by simp
  qed
  then show ?thesis unfolding Let_def w_def p_def .
qed

theorem C2_single_flight_witness:
  "outstanding (snd (run [ChangeInput ''hi'', HandleSend] (initial ''s1''))) = 1 \<and>
   sendMessage ''again'' (snd (run [ChangeInput ''hi'', HandleSend] (initial ''s1''))) =
     snd (run [ChangeInput ''hi'', HandleSend] (initial ''s1'')) \<and>
   calls (snd (step HandleSend (run [ChangeInput ''hi'', HandleSend] (initial ''s1'')))) =
     [(''hi'', ''s1'')] \<and>
   outstanding (snd (step (Settle (Rejected ''timeout''))
     (run [ChangeInput ''hi'', HandleSend] (initial ''s1'')))) = 0 \<and>
   outstanding (sendMessage ''again'' (snd (step (Settle (Rejected ''timeout''))
     (run [ChangeInput ''hi'', HandleSend] (initial ''s1''))))) = 1"
proof -
  let ?w = "run [ChangeInput ''hi'', HandleSend] (initial ''s1'')"
  have t: "trim ''hi'' = ''hi''" "trim ''again'' = ''again''"
    by (simp_all add: trim_def is_ws_def)
  have c: "calls (snd ?w) = [(''hi'', ''s1'')]"
    by (simp add: initial_def initial_page_def handleSend_def sendMessage_def
        appendMessage_def t Let_def)
  have o: "outstanding (snd ?w) = 1"
    by (simp add: initial_def initial_page_def handleSend_def sendMessage_def
        appendMessage_def outstanding_def t Let_def)
  have s: "\<not> is_settle HandleSend" by simp
  note A = C2_single_flight[of "[ChangeInput ''hi'', HandleSend]" "''s1''" "''again''",
      unfolded Let_def]
  note B = A[THEN conjunct2, THEN conjunct2, THEN mp, OF o]
  note B1 = B[THEN conjunct1]
  note B2 = B[THEN conjunct2, THEN conjunct1, THEN spec, of HandleSend, THEN mp, OF s]
  note B3 = B[THEN conjunct2, THEN conjunct2, THEN spec, of "Rejected ''timeout''"]
  show ?thesis
    using o B1 B2 B3 c t(2) by simp
qed

text \<open>
  C1. From every state the page can reach with no call outstanding, a submission whose
  trimmed text is not empty issues exactly one backend call, carrying the trimmed text and
  the id the session was created with; and when that call succeeds, whatever other events happened in between,
  the transcript is the old one followed by the user entry with the trimmed text and then
  the assistant entry with the response's text and sources, and no further call was issued.
\<close>

theorem C1_admitted_exchange:
  assumes "\<not> loadingRef (snd (run evs0 (initial sid)))"
    and "trim text \<noteq> []"
    and "\<forall>e\<in>set evs. \<not> is_settle e"
  shows "let w = run evs0 (initial sid);
             w1 = (fst w, sendMessage text (snd w));
             w2 = run evs w1;
             w3 = step (Settle (Fulfilled resp)) w2
         in calls (snd w1) = calls (snd w) @ [(trim text, sid)] \<and>
            calls (snd w3) = calls (snd w1) \<and>
            messages (snd w3) =
              messages (snd w) @
                [\<lparr>role = User, content = Some (trim text), sources = None\<rparr>,
                 \<lparr>role = Assistant, content = response resp,
                  sources = response_sources resp\<rparr>]"
  using exchange[OF assms, of "Fulfilled resp"] sessionId_reachable[of evs0 sid]
  unfolding Let_def by (simp del: step.simps)

theorem C1_admitted_exchange_witness:
  "\<not> loadingRef (snd (run [] (initial ''s1''))) \<and>
   trim ''What is a deductible?'' \<noteq> [] \<and>
   \<not> is_settle (ChangeInput ''again'') \<and> \<not> is_settle HandleSend \<and>
   calls (sendMessage ''What is a deductible?'' (snd (initial ''s1''))) =
     [(''What is a deductible?'', ''s1'')] \<and>
   messages (snd (step (Settle (Fulfilled
       \<lparr>session_id = Some ''s1'', message = Some ''What is a deductible?'',
        response = Some ''A deductible is...'', response_sources = Some [''policy-glossary''],
        timestamp = Some ''now''\<rparr>))
     (run [ChangeInput ''again'', HandleSend]
        (fst (initial ''s1''), sendMessage ''What is a deductible?'' (snd (initial ''s1'')))))) =
     [\<lparr>role = Assistant, content = Some greeting, sources = None\<rparr>,
      \<lparr>role = User, content = Some ''What is a deductible?'', sources = None\<rparr>,
      \<lparr>role = Assistant, content = Some ''A deductible is...'',
       sources = Some [''policy-glossary'']\<rparr>]"
proof -
  have h1: "\<not> loadingRef (snd (run [] (initial ''s1'')))"
    by (simp add: initial_def initial_page_def)
  have t: "trim ''What is a deductible?'' = ''What is a deductible?''"
    by (simp add: trim_def is_ws_def)
  have h2: "trim ''What is a deductible?'' \<noteq> []" by (simp add: t)
  have h3: "\<forall>e\<in>set [ChangeInput ''again'', HandleSend]. \<not> is_settle e" by simp
  have i: "messages (snd (initial ''s1'')) = [\<lparr>role = Assistant, content = Some greeting, sources = None\<rparr>]"
      "calls (snd (initial ''s1'')) = []" "sessionId (snd (initial ''s1'')) = ''s1''"
    by (simp_all add: initial_def initial_page_def)
  note A = C1_admitted_exchange[OF h1 h2 h3, unfolded Let_def run.simps(1) t i, of
      "\<lparr>session_id = Some ''s1'', message = Some ''What is a deductible?'',
        response = Some ''A deductible is...'', response_sources = Some [''policy-glossary''],
        timestamp = Some ''now''\<rparr>"]
  show ?thesis using h1 h2 h3 A by (simp del: step.simps run.simps)
qed

text \<open>
  C7, as amended. From every state the page can reach with no call outstanding, when the
  call of an admitted submission fails, that is, its promise is rejected, whatever other
  events happened in between: no exception leaves \<open>sendMessage\<close>, the hook's state is
  untouched, exactly the fallback assistant entry is appended after the user entry, the
  flag is cleared with no call outstanding, and the only call issued is the first one.
\<close>

theorem C7_backend_failure_absorbed:
  assumes "\<not> loadingRef (snd (run evs0 (initial sid)))"
    and "trim text \<noteq> []"
    and "\<forall>e\<in>set evs. \<not> is_settle e"
  shows "let w = run evs0 (initial sid);
             w1 = (fst w, sendMessage text (snd w));
             w2 = run evs w1;
             w3 = step (Settle (Rejected err)) w2
         in fst (sendMessage_resume (Rejected err) (snd w2)) = None \<and>
            fst w3 = fst w2 \<and>
            messages (snd w3) =
              messages (snd w2) @ [\<lparr>role = Assistant, content = Some fallback, sources = None\<rparr>] \<and>
            messages (snd w3) =
              messages (snd w) @
                [\<lparr>role = User, content = Some (trim text), sources = None\<rparr>,
                 \<lparr>role = Assistant, content = Some fallback, sources = None\<rparr>] \<and>
            \<not> loadingRef (snd w3) \<and> outstanding (snd w3) = 0 \<and>
            calls (snd w3) = calls (snd w) @ [(trim text, sid)]"
  using exchange[OF assms, of "Rejected err"] sessionId_reachable[of evs0 sid]
  unfolding Let_def by (simp del: step.simps)

theorem C7_backend_failure_absorbed_witness:
  "\<not> loadingRef (snd (run [] (initial ''s1''))) \<and>
   trim '' hello '' \<noteq> [] \<and>
   \<not> is_settle HandleSend \<and>
   fst (sendMessage_resume (Rejected ''Network Error'')
     (snd (run [HandleSend] (fst (initial ''s1''), sendMessage '' hello '' (snd (initial ''s1'')))))) = None \<and>
   messages (snd (step (Settle (Rejected ''Network Error''))
     (run [HandleSend] (fst (initial ''s1''), sendMessage '' hello '' (snd (initial ''s1'')))))) =
     [\<lparr>role = Assistant, content = Some greeting, sources = None\<rparr>,
      \<lparr>role = User, content = Some ''hello'', sources = None\<rparr>,
      \<lparr>role = Assistant, content = Some ''Sorry, I encountered an error. Please try again.'',
       sources = None\<rparr>] \<and>
   calls (snd (step (Settle (Rejected ''Network Error''))
     (run [HandleSend] (fst (initial ''s1''), sendMessage '' hello '' (snd (initial ''s1'')))))) =
     [(''hello'', ''s1'')]"
proof -
  have h1: "\<not> loadingRef (snd (run [] (initial ''s1'')))"
    by (simp add: initial_def initial_page_def)
  have t: "trim '' hello '' = ''hello''"
    by (simp add: trim_def is_ws_def)
  have h2: "trim '' hello '' \<noteq> []" by (simp add: t)
  have h3: "\<forall>e\<in>set [HandleSend]. \<not> is_settle e" by simp
  have i: "messages (snd (initial ''s1'')) = [\<lparr>role = Assistant, content = Some greeting, sources = None\<rparr>]"
      "calls (snd (initial ''s1'')) = []" "sessionId (snd (initial ''s1'')) = ''s1''"
    by (simp_all add: initial_def initial_page_def)
  note A = C7_backend_failure_absorbed[OF h1 h2 h3, unfolded Let_def run.simps(1) t i, of
      "''Network Error''"]
  note B = A[THEN conjunct2, THEN conjunct2, THEN conjunct2]
  note A1 = A[THEN conjunct1] and A4 = B[THEN conjunct1]
    and A7 = B[THEN conjunct2, THEN conjunct2, THEN conjunct2]
  show ?thesis using h1 h2 h3 A1 A4 A7 by (simp del: step.simps run.simps add: fallback_def)
qed

text \<open>
  C7, as stated, fails for a malformed payload: a response that arrives with the empty
  object as its payload fulfils the promise, so the \<open>try\<close> block appends an assistant
  entry with no content and the fallback entry is not appended.
\<close>

theorem C7_malformed_payload_counterexample:
  "messages (snd (step (Settle (Fulfilled
       \<lparr>session_id = None, message = None, response = None, response_sources = None,
        timestamp = None\<rparr>))
     (fst (initial ''s1''), sendMessage ''hello'' (snd (initial ''s1''))))) =
     [\<lparr>role = Assistant, content = Some greeting, sources = None\<rparr>,
      \<lparr>role = User, content = Some ''hello'', sources = None\<rparr>,
      \<lparr>role = Assistant, content = None, sources = None\<rparr>] \<and>
   \<lparr>role = Assistant, content = Some fallback, sources = None\<rparr> \<notin> set (messages (snd (step
     (Settle (Fulfilled
       \<lparr>session_id = None, message = None, response = None, response_sources = None,
        timestamp = None\<rparr>))
     (fst (initial ''s1''), sendMessage ''hello'' (snd (initial ''s1''))))))"
proof -
  have t: "trim ''hello'' = ''hello''" by (simp add: trim_def is_ws_def)
  have g: "greeting \<noteq> fallback" by (simp add: greeting_def fallback_def)
  have m: "messages (snd (step (Settle (Fulfilled
       \<lparr>session_id = None, message = None, response = None, response_sources = None,
        timestamp = None\<rparr>))
     (fst (initial ''s1''), sendMessage ''hello'' (snd (initial ''s1''))))) =
     [\<lparr>role = Assistant, content = Some greeting, sources = None\<rparr>,
      \<lparr>role = User, content = Some ''hello'', sources = None\<rparr>,
      \<lparr>role = Assistant, content = None, sources = None\<rparr>]"
    by (simp add: initial_def initial_page_def page_defs t Let_def)
  show ?thesis unfolding m using g by simp
qed


section \<open>The claims about the voice session controller\<close>

text \<open>
  C4, as amended. On a \<open>result\<close> signal the handler invokes \<open>onTranscription\<close> at most once:
  with the role user and the trimmed concatenation of the transcripts of the finalized
  results from \<open>resultIndex\<close> on, and only if that text is not empty and a callback is
  registered. Results that are not final contribute nothing, and nothing of the hook but
  the record of the invocation changes; the status stays as it was.
\<close>

theorem C4_result_signal:
  "let finalText = trim (concat (map transcript
         (filter isFinal (drop (resultIndex event) (results event)))));
       w' = recognition_onresult opts event w
   in (finalText \<noteq> [] \<and> onTranscription opts = Some cb \<longrightarrow>
         w' = ((fst w)\<lparr>transcriptions := transcriptions (fst w) @ [(User, finalText)]\<rparr>,
               cb User finalText (snd w))) \<and>
      (finalText = [] \<or> onTranscription opts = None \<longrightarrow> w' = w) \<and>
      status (fst w') = status (fst w)"
  by (auto simp: recognition_onresult_def call_onTranscription_def final_loop_concat Let_def
      split: option.split)

theorem C4_result_signal_witness:
  "trim (concat (map transcript (filter isFinal (drop 1
      [\<lparr>isFinal = True, transcript = ''old''\<rparr>, \<lparr>isFinal = True, transcript = '' file a ''\<rparr>,
       \<lparr>isFinal = False, transcript = ''clai''\<rparr>, \<lparr>isFinal = True, transcript = ''claim ''\<rparr>]))))
     = ''file a claim'' \<and>
   onTranscription page_options = Some page_onTranscription \<and>
   recognition_onresult page_options
     \<lparr>resultIndex = 1, results =
       [\<lparr>isFinal = True, transcript = ''old''\<rparr>, \<lparr>isFinal = True, transcript = '' file a ''\<rparr>,
        \<lparr>isFinal = False, transcript = ''clai''\<rparr>, \<lparr>isFinal = True, transcript = ''claim ''\<rparr>]\<rparr>
     (initial ''s1'') =
   ((fst (initial ''s1''))\<lparr>transcriptions := transcriptions (fst (initial ''s1'')) @
        [(User, ''file a claim'')]\<rparr>,
    page_onTranscription User ''file a claim'' (snd (initial ''s1'')))"
proof -
  let ?ev = "\<lparr>resultIndex = 1, results =
       [\<lparr>isFinal = True, transcript = ''old''\<rparr>, \<lparr>isFinal = True, transcript = '' file a ''\<rparr>,
        \<lparr>isFinal = False, transcript = ''clai''\<rparr>, \<lparr>isFinal = True, transcript = ''claim ''\<rparr>]\<rparr>"
  have t: "trim (concat (map transcript (filter isFinal (drop (resultIndex ?ev) (results ?ev)))))
      = ''file a claim''"
    by (simp add: trim_def is_ws_def)
  have o: "onTranscription page_options = Some page_onTranscription"
    by (simp add: page_options_def)
  note A = C4_result_signal[of ?ev page_options "initial ''s1''" page_onTranscription,
      unfolded Let_def t, THEN conjunct1, THEN mp]
  have "recognition_onresult page_options ?ev (initial ''s1'') =
   ((fst (initial ''s1''))\<lparr>transcriptions := transcriptions (fst (initial ''s1'')) @
        [(User, ''file a claim'')]\<rparr>,
    page_onTranscription User ''file a claim'' (snd (initial ''s1'')))"
    by (rule A) (simp add: o)
  then show ?thesis using t o by simp
qed

text \<open>
  C4, as stated, fails: a \<open>result\<close> signal that carries two finalized utterances leads to
  one invocation with their concatenation, not to one invocation for each.
\<close>

theorem C4_per_utterance_counterexample:
  "transcriptions (fst (run
      [StartVoice \<lparr>RecognitionClass = True, navigator_language = ''en-GB'', start_throws = False\<rparr>,
       Platform 0 Started,
       Platform 0 (Result \<lparr>resultIndex = 0, results =
         [\<lparr>isFinal = True, transcript = ''hello''\<rparr>, \<lparr>isFinal = True, transcript = ''world''\<rparr>]\<rparr>)]
      (initial ''s1''))) = [(User, ''helloworld'')] \<and>
   per_utterance_emissions \<lparr>resultIndex = 0, results =
         [\<lparr>isFinal = True, transcript = ''hello''\<rparr>, \<lparr>isFinal = True, transcript = ''world''\<rparr>]\<rparr>
     = [(User, ''hello''), (User, ''world'')] \<and>
   transcriptions (fst (run
      [StartVoice \<lparr>RecognitionClass = True, navigator_language = ''en-GB'', start_throws = False\<rparr>,
       Platform 0 Started,
       Platform 0 (Result \<lparr>resultIndex = 0, results =
         [\<lparr>isFinal = True, transcript = ''hello''\<rparr>, \<lparr>isFinal = True, transcript = ''world''\<rparr>]\<rparr>)]
      (initial ''s1''))) \<noteq>
   per_utterance_emissions \<lparr>resultIndex = 0, results =
         [\<lparr>isFinal = True, transcript = ''hello''\<rparr>, \<lparr>isFinal = True, transcript = ''world''\<rparr>]\<rparr>"
  by (simp add: initial_def initial_hook_def initial_page_def start_def deliver_def
      recognition_onstart_def recognition_onresult_def call_onStatus_def call_onTranscription_def
      page_options_def per_utterance_emissions_def trim_def is_ws_def Let_def)

text \<open>
  C5, as amended. When the \<open>ended\<close> handler runs with listening intent set, the status
  becomes connecting and the platform is told once to start the same recognition object
  again; if that call throws, the status is error with a message, intent is cleared, and
  no later platform signal leads to another call. The handler sets the status to idle
  exactly when intent was already cleared. Intent is cleared by the \<open>error\<close> handler and
  by a failed restart as well as by \<open>stop\<close>; and after \<open>stop\<close> the handler is detached,
  so that an \<open>ended\<close> signal of the stopped object changes nothing.
\<close>

theorem C5_ended_signal:
  "(isRecordingRef (fst w) \<longrightarrow>
      recognition_onend opts r False w =
        ((fst w)\<lparr>status := Connecting,
                  platform_calls := platform_calls (fst w) @ [RecognitionStart r]\<rparr>, snd w) \<and>
      (let w' = recognition_onend opts r True w in
         status (fst w') = Error \<and>
         error (fst w') = Some ''Speech recognition stopped unexpectedly'' \<and>
         \<not> isRecordingRef (fst w') \<and>
         platform_calls (fst w') = platform_calls (fst w) @ [RecognitionStart r] \<and>
         (\<forall>sigs. platform_calls (fst (deliver_all opts sigs w')) = platform_calls (fst w')))) \<and>
   (status (fst (recognition_onend opts r b w)) = Idle \<longleftrightarrow> \<not> isRecordingRef (fst w)) \<and>
   (\<not> isRecordingRef (fst w) \<longrightarrow>
      fst (recognition_onend opts r b w) = (fst w)\<lparr>status := Idle\<rparr>) \<and>
   \<not> isRecordingRef (fst (recognition_onerror opts e w)) \<and>
   \<not> isRecordingRef (fst (stop w)) \<and>
   (\<forall>q. recognitionRef (fst w) = Some q \<and> q < length (objects (fst w)) \<longrightarrow>
      deliver opts q (Ended b) (stop w) = stop w)"
proof -
  have restart: "recognition_onend opts r False w =
        ((fst w)\<lparr>status := Connecting,
                  platform_calls := platform_calls (fst w) @ [RecognitionStart r]\<rparr>, snd w)"
    if "isRecordingRef (fst w)"
    using that by (simp add: recognition_onend_def Let_def)
  have failed: "status (fst (recognition_onend opts r True w)) = Error \<and>
         error (fst (recognition_onend opts r True w)) =
           Some ''Speech recognition stopped unexpectedly'' \<and>
         \<not> isRecordingRef (fst (recognition_onend opts r True w)) \<and>
         platform_calls (fst (recognition_onend opts r True w)) =
           platform_calls (fst w) @ [RecognitionStart r]"
    if "isRecordingRef (fst w)"
    using that by (simp add: recognition_onend_def call_onStatus_def Let_def split: option.split)
  have nomore: "platform_calls (fst (deliver_all opts sigs (recognition_onend opts r True w))) =
      platform_calls (fst (recognition_onend opts r True w))"
    if "isRecordingRef (fst w)" for sigs
    using failed[OF that] by (intro quiet_deliver_all) simp
  have idle: "status (fst (recognition_onend opts r b w)) = Idle \<longleftrightarrow> \<not> isRecordingRef (fst w)"
    by (simp add: recognition_onend_def call_onStatus_def Let_def split: option.split)
  have idle': "fst (recognition_onend opts r b w) = (fst w)\<lparr>status := Idle\<rparr>"
    if "\<not> isRecordingRef (fst w)"
    using that by (simp add: recognition_onend_def call_onStatus_def split: option.split)
  have err: "\<not> isRecordingRef (fst (recognition_onerror opts e w))"
    by (simp add: recognition_onerror_def Let_def)
  have stp: "\<not> isRecordingRef (fst (stop w))"
    by (simp add: stop_def Let_def split: option.split)
  have det: "deliver opts q (Ended b) (stop w) = stop w"
    if "recognitionRef (fst w) = Some q" "q < length (objects (fst w))" for q
    using detached_stop[OF that] by (rule deliver_detached)
  show ?thesis
    unfolding Let_def using restart failed nomore idle idle' err stp det
    by (intro conjI impI allI) (simp_all del: deliver_all.simps)
qed


theorem C5_ended_signal_witness:
  "isRecordingRef (fst (step (StartVoice
      \<lparr>RecognitionClass = True, navigator_language = ''en-GB'', start_throws = False\<rparr>)
      (initial ''s1''))) \<and>
   status (fst (recognition_onend page_options 0 False (step (StartVoice
      \<lparr>RecognitionClass = True, navigator_language = ''en-GB'', start_throws = False\<rparr>)
      (initial ''s1'')))) = Connecting \<and>
   status (fst (recognition_onend page_options 0 True (step (StartVoice
      \<lparr>RecognitionClass = True, navigator_language = ''en-GB'', start_throws = False\<rparr>)
      (initial ''s1'')))) = Error \<and>
   recognitionRef (fst (step (StartVoice
      \<lparr>RecognitionClass = True, navigator_language = ''en-GB'', start_throws = False\<rparr>)
      (initial ''s1''))) = Some 0 \<and>
   deliver page_options 0 (Ended False) (stop (step (StartVoice
      \<lparr>RecognitionClass = True, navigator_language = ''en-GB'', start_throws = False\<rparr>)
      (initial ''s1''))) =
     stop (step (StartVoice
      \<lparr>RecognitionClass = True, navigator_language = ''en-GB'', start_throws = False\<rparr>)
      (initial ''s1'')) \<and>
   \<not> isRecordingRef (fst (initial ''s1'')) \<and>
   fst (recognition_onend page_options 0 False (initial ''s1'')) =
     (fst (initial ''s1''))\<lparr>status := Idle\<rparr>"
proof -
  let ?w = "step (StartVoice
      \<lparr>RecognitionClass = True, navigator_language = ''en-GB'', start_throws = False\<rparr>)
      (initial ''s1'')"
  have h: "isRecordingRef (fst ?w)" "recognitionRef (fst ?w) = Some 0"
      "0 < length (objects (fst ?w))"
    by (simp_all add: initial_def initial_hook_def start_def Let_def)
  have i: "\<not> isRecordingRef (fst (initial ''s1''))"
    by (simp add: initial_def initial_hook_def)
  note A = C5_ended_signal[of ?w page_options 0 False None, unfolded Let_def]
  note A1 = A[THEN conjunct1, THEN mp, OF h(1)]
  note A2 = A[THEN conjunct2, THEN conjunct2, THEN conjunct2, THEN conjunct2, THEN conjunct2,
      THEN spec, of 0, THEN mp, OF conjI, OF h(2) h(3)]
  note B = C5_ended_signal[of "initial ''s1''" page_options 0 False None, unfolded Let_def]
  note B1 = B[THEN conjunct2, THEN conjunct2, THEN conjunct1, THEN mp, OF i]
  show ?thesis using h i A1 A2 B1 by (simp del: step.simps)
qed

text \<open>
  C5, as stated, fails where it takes cleared intent to mean that \<open>stop\<close> came first: after
  a platform \<open>error\<close> signal intent is cleared, and the \<open>ended\<close> signal that follows moves
  the status from error to idle although \<open>stop\<close> was never called.
\<close>

theorem C5_idle_without_stop_counterexample:
  "\<not> isRecordingRef (fst (run
      [StartVoice \<lparr>RecognitionClass = True, navigator_language = ''en-GB'', start_throws = False\<rparr>,
       Platform 0 Started, Platform 0 (Errored (Some ''no-speech''))] (initial ''s1''))) \<and>
   status (fst (run
      [StartVoice \<lparr>RecognitionClass = True, navigator_language = ''en-GB'', start_throws = False\<rparr>,
       Platform 0 Started, Platform 0 (Errored (Some ''no-speech''))] (initial ''s1''))) = Error \<and>
   status (fst (run
      [StartVoice \<lparr>RecognitionClass = True, navigator_language = ''en-GB'', start_throws = False\<rparr>,
       Platform 0 Started, Platform 0 (Errored (Some ''no-speech'')), Platform 0 (Ended False)]
      (initial ''s1''))) = Idle \<and>
   StopVoice \<notin> set
      [StartVoice \<lparr>RecognitionClass = True, navigator_language = ''en-GB'', start_throws = False\<rparr>,
       Platform 0 Started, Platform 0 (Errored (Some ''no-speech'')), Platform 0 (Ended False)]"
  by (simp add: initial_def initial_hook_def initial_page_def start_def deliver_def
      recognition_onstart_def recognition_onerror_def recognition_onend_def
      call_onStatus_def page_options_def Let_def)

text \<open>
  C6. In every state the page and its hook can reach with a recognition object in the
  ref, once \<open>stop\<close> has run, a signal of that object changes nothing, at once or after any
  further events: neither the hook's state, with its status and its record of
  \<open>onTranscription\<close> invocations, nor the page's state with the transcript. At once this
  holds whatever the callbacks are.
\<close>

theorem C6_detached_after_stop:
  assumes "recognitionRef (fst (run evs0 (initial sid))) = Some r"
  shows "step (Platform r sig) (run evs (step StopVoice (run evs0 (initial sid)))) =
           run evs (step StopVoice (run evs0 (initial sid))) \<and>
         deliver opts r sig (stop (run evs0 (initial sid))) = stop (run evs0 (initial sid))"
proof -
  have "hook_inv (fst (run evs0 (initial sid)))" by (rule hook_inv_reachable)
  then have "r < length (objects (fst (run evs0 (initial sid))))"
    using assms by (simp add: hook_inv_def)
  with assms have d: "detached r (fst (stop (run evs0 (initial sid))))" by (rule detached_stop)
  then have "detached r (fst (run evs (step StopVoice (run evs0 (initial sid)))))"
    by (intro detached_run) simp
  then show ?thesis using d by (simp add: deliver_detached)
qed

theorem C6_detached_after_stop_witness:
  "recognitionRef (fst (run
      [StartVoice \<lparr>RecognitionClass = True, navigator_language = ''en-GB'', start_throws = False\<rparr>,
       Platform 0 Started] (initial ''s1''))) = Some 0 \<and>
   step (Platform 0 (Result \<lparr>resultIndex = 0, results = [\<lparr>isFinal = True, transcript = ''late''\<rparr>]\<rparr>))
     (run [] (step StopVoice (run
      [StartVoice \<lparr>RecognitionClass = True, navigator_language = ''en-GB'', start_throws = False\<rparr>,
       Platform 0 Started] (initial ''s1'')))) =
   run [] (step StopVoice (run
      [StartVoice \<lparr>RecognitionClass = True, navigator_language = ''en-GB'', start_throws = False\<rparr>,
       Platform 0 Started] (initial ''s1''))) \<and>
   transcriptions (fst (run [] (step StopVoice (run
      [StartVoice \<lparr>RecognitionClass = True, navigator_language = ''en-GB'', start_throws = False\<rparr>,
       Platform 0 Started] (initial ''s1''))))) = []"
proof -
  let ?evs = "[StartVoice \<lparr>RecognitionClass = True, navigator_language = ''en-GB'', start_throws = False\<rparr>,
       Platform 0 Started]"
  have h: "recognitionRef (fst (run ?evs (initial ''s1''))) = Some 0"
    by (simp add: initial_def initial_hook_def start_def deliver_def
        recognition_onstart_def call_onStatus_def page_options_def Let_def)
  have t: "transcriptions (fst (run [] (step StopVoice (run ?evs (initial ''s1''))))) = []"
    by (simp add: initial_def initial_hook_def start_def stop_def deliver_def
        recognition_onstart_def call_onStatus_def page_options_def Let_def)
  note A = C6_detached_after_stop[OF h, of
      "Result \<lparr>resultIndex = 0, results = [\<lparr>isFinal = True, transcript = ''late''\<rparr>]\<rparr>" "[]",
      THEN conjunct1]
  show ?thesis using h t A by (simp del: step.simps run.simps)
qed

text \<open>
  C9, as amended. In every state the hook can reach with no recognition object in the ref,
  \<open>stop\<close> changes nothing but the status, which it sets to idle: the error message,
  listening intent, the recognition objects and the page stay as they were, and no call
  goes to the platform. And \<open>stop\<close> is idempotent in every state.
\<close>

theorem C9_stop_without_handle:
  "(recognitionRef (fst (run evs (initial sid))) = None \<longrightarrow>
      stop (run evs (initial sid)) =
        ((fst (run evs (initial sid)))\<lparr>status := Idle\<rparr>, snd (run evs (initial sid)))) \<and>
   stop (stop w) = stop w"
proof -
  have "hook_inv (fst (run evs (initial sid)))" by (rule hook_inv_reachable)
  then have "stop (run evs (initial sid)) =
        ((fst (run evs (initial sid)))\<lparr>status := Idle\<rparr>, snd (run evs (initial sid)))"
    if "recognitionRef (fst (run evs (initial sid))) = None"
    using that by (simp add: stop_def hook_inv_def hook_status_only Let_def)
  then show ?thesis by (simp add: stop_stop)
qed

theorem C9_stop_without_handle_witness:
  "recognitionRef (fst (run [] (initial ''s1''))) = None \<and>
   stop (run [] (initial ''s1'')) = run [] (initial ''s1'') \<and>
   stop (stop (run [] (initial ''s1''))) = stop (run [] (initial ''s1''))"
proof -
  have h: "recognitionRef (fst (run [] (initial ''s1''))) = None"
    by (simp add: initial_def initial_hook_def)
  have i: "(fst (run [] (initial ''s1'')))\<lparr>status := Idle\<rparr> = fst (run [] (initial ''s1''))"
    by (simp add: initial_def initial_hook_def)
  note A = C9_stop_without_handle[of "[]" "''s1''" "run [] (initial ''s1'')"]
  note A1 = A[THEN conjunct1, THEN mp, OF h] and A2 = A[THEN conjunct2]
  show ?thesis using h A1 A2 unfolding i by (simp del: run.simps)
qed

text \<open>
  C9, as stated, fails for the status: when the host has no speech recognition, \<open>start\<close>
  leaves the ref empty with status error, and \<open>stop\<close> then moves the status to idle.
\<close>

theorem C9_status_changes_counterexample:
  "recognitionRef (fst (run
      [StartVoice \<lparr>RecognitionClass = False, navigator_language = ''en-GB'', start_throws = False\<rparr>]
      (initial ''s1''))) = None \<and>
   status (fst (run
      [StartVoice \<lparr>RecognitionClass = False, navigator_language = ''en-GB'', start_throws = False\<rparr>]
      (initial ''s1''))) = Error \<and>
   status (fst (stop (run
      [StartVoice \<lparr>RecognitionClass = False, navigator_language = ''en-GB'', start_throws = False\<rparr>]
      (initial ''s1'')))) = Idle"
  by (simp add: initial_def initial_hook_def start_def stop_def call_onStatus_def
      page_options_def Let_def)

text \<open>
  C10. When the \<open>error\<close> handler has run while the ref holds a recognition object, the ref
  and the objects are as before, intent is cleared and the status is error with a
  message. From then on, after any events none of which calls \<open>stop\<close> (further platform
  signals, such as the \<open>ended\<close> signal that moves the status to idle, among them), the
  ref and the objects are still the same, an error message is still set, and \<open>start\<close>
  returns the state unchanged: it creates no object and keeps the message and the status.
  After \<open>stop\<close>, on a host that has speech recognition, \<open>start\<close> creates a new object,
  clears the message and moves to connecting.
\<close>

theorem C10_start_after_error:
  assumes "recognitionRef (fst w) \<noteq> None"
  shows "let w' = recognition_onerror opts e w in
           recognitionRef (fst w') = recognitionRef (fst w) \<and>
           objects (fst w') = objects (fst w) \<and>
           \<not> isRecordingRef (fst w') \<and> status (fst w') = Error \<and> error (fst w') \<noteq> None \<and>
           start opts env w' = w' \<and>
           (\<forall>evs. no_stop evs w' \<longrightarrow>
              (let w2 = run evs w' in
                 recognitionRef (fst w2) = recognitionRef (fst w) \<and>
                 objects (fst w2) = objects (fst w) \<and> error (fst w2) \<noteq> None \<and>
                 start opts env w2 = w2 \<and> step (StartVoice env) w2 = w2)) \<and>
           (RecognitionClass env \<and> \<not> start_throws env \<longrightarrow>
              (let w'' = start opts env (stop w') in
                 recognitionRef (fst w'') = Some (length (objects (fst w'))) \<and>
                 length (objects (fst w'')) = Suc (length (objects (fst w'))) \<and>
                 error (fst w'') = None \<and> status (fst w'') = Connecting \<and>
                 isRecordingRef (fst w'')))"
proof -
  define w' where "w' = recognition_onerror opts e w"
  have f: "recognitionRef (fst w') = recognitionRef (fst w)" "objects (fst w') = objects (fst w)"
      "\<not> isRecordingRef (fst w')" "status (fst w') = Error" "error (fst w') \<noteq> None"
    unfolding w'_def
    by (simp_all add: recognition_onerror_def call_onStatus_def Let_def split: option.split)
  have n: "start opts env w' = w'" using f(1) assms by (simp add: start_def)
  have later: "recognitionRef (fst (run evs w')) = recognitionRef (fst w) \<and>
      objects (fst (run evs w')) = objects (fst w) \<and> error (fst (run evs w')) \<noteq> None \<and>
      start opts env (run evs w') = run evs w' \<and> step (StartVoice env) (run evs w') = run evs w'"
    if q: "no_stop evs w'" for evs
  proof -
    have "held (fst w) (fst w')" using f by (simp add: held_def)
    with assms have h: "held (fst w) (fst (run evs w'))" using q by (rule held_run)
    then have "recognitionRef (fst (run evs w')) \<noteq> None" using assms by (simp add: held_def)
    then show ?thesis using h by (simp add: held_def start_held)
  qed
  have s: "recognitionRef (fst (stop w')) = None" "\<not> isRecordingRef (fst (stop w'))"
      "length (objects (fst (stop w'))) = length (objects (fst w'))"
    by (simp_all add: stop_def Let_def split: option.split)
  have r: "recognitionRef (fst (start opts env (stop w'))) = Some (length (objects (fst w'))) \<and>
      length (objects (fst (start opts env (stop w')))) = Suc (length (objects (fst w'))) \<and>
      error (fst (start opts env (stop w'))) = None \<and>
      status (fst (start opts env (stop w'))) = Connecting \<and>
      isRecordingRef (fst (start opts env (stop w')))"
    if "RecognitionClass env" "\<not> start_throws env"
    using that s by (simp add: start_def Let_def)
  show ?thesis unfolding Let_def w'_def[symmetric] using f n later r
    by (intro conjI impI allI) (simp_all del: step.simps run.simps)
qed

theorem C10_start_after_error_witness:
  "recognitionRef (fst (run
      [StartVoice \<lparr>RecognitionClass = True, navigator_language = ''en-GB'', start_throws = False\<rparr>,
       Platform 0 Started] (initial ''s1''))) \<noteq> None \<and>
   error (fst (recognition_onerror page_options (Some ''network'') (run
      [StartVoice \<lparr>RecognitionClass = True, navigator_language = ''en-GB'', start_throws = False\<rparr>,
       Platform 0 Started] (initial ''s1'')))) = Some ''Speech recognition error: network'' \<and>
   start page_options
     \<lparr>RecognitionClass = True, navigator_language = ''en-GB'', start_throws = False\<rparr>
     (recognition_onerror page_options (Some ''network'') (run
      [StartVoice \<lparr>RecognitionClass = True, navigator_language = ''en-GB'', start_throws = False\<rparr>,
       Platform 0 Started] (initial ''s1''))) =
   recognition_onerror page_options (Some ''network'') (run
      [StartVoice \<lparr>RecognitionClass = True, navigator_language = ''en-GB'', start_throws = False\<rparr>,
       Platform 0 Started] (initial ''s1'')) \<and>
   no_stop
     [Platform 0 (Ended False),
      ToggleVoice \<lparr>RecognitionClass = True, navigator_language = ''en-GB'', start_throws = False\<rparr>]
     (recognition_onerror page_options (Some ''network'') (run
      [StartVoice \<lparr>RecognitionClass = True, navigator_language = ''en-GB'', start_throws = False\<rparr>,
       Platform 0 Started] (initial ''s1''))) \<and>
   status (fst (run
     [Platform 0 (Ended False),
      ToggleVoice \<lparr>RecognitionClass = True, navigator_language = ''en-GB'', start_throws = False\<rparr>]
     (recognition_onerror page_options (Some ''network'') (run
      [StartVoice \<lparr>RecognitionClass = True, navigator_language = ''en-GB'', start_throws = False\<rparr>,
       Platform 0 Started] (initial ''s1''))))) = Idle \<and>
   step (StartVoice
       \<lparr>RecognitionClass = True, navigator_language = ''en-GB'', start_throws = False\<rparr>)
     (run
       [Platform 0 (Ended False),
        ToggleVoice \<lparr>RecognitionClass = True, navigator_language = ''en-GB'', start_throws = False\<rparr>]
       (recognition_onerror page_options (Some ''network'') (run
        [StartVoice \<lparr>RecognitionClass = True, navigator_language = ''en-GB'', start_throws = False\<rparr>,
         Platform 0 Started] (initial ''s1'')))) =
   run
     [Platform 0 (Ended False),
      ToggleVoice \<lparr>RecognitionClass = True, navigator_language = ''en-GB'', start_throws = False\<rparr>]
     (recognition_onerror page_options (Some ''network'') (run
      [StartVoice \<lparr>RecognitionClass = True, navigator_language = ''en-GB'', start_throws = False\<rparr>,
       Platform 0 Started] (initial ''s1''))) \<and>
   RecognitionClass \<lparr>RecognitionClass = True, navigator_language = ''en-GB'', start_throws = False\<rparr> \<and>
   \<not> start_throws \<lparr>RecognitionClass = True, navigator_language = ''en-GB'', start_throws = False\<rparr> \<and>
   recognitionRef (fst (start page_options
     \<lparr>RecognitionClass = True, navigator_language = ''en-GB'', start_throws = False\<rparr>
     (stop (recognition_onerror page_options (Some ''network'') (run
      [StartVoice \<lparr>RecognitionClass = True, navigator_language = ''en-GB'', start_throws = False\<rparr>,
       Platform 0 Started] (initial ''s1'')))))) = Some 1"
proof -
  let ?env = "\<lparr>RecognitionClass = True, navigator_language = ''en-GB'', start_throws = False\<rparr>"
  let ?w = "run [StartVoice ?env, Platform 0 Started] (initial ''s1'')"
  let ?w' = "recognition_onerror page_options (Some ''network'') ?w"
  let ?evs = "[Platform 0 (Ended False), ToggleVoice ?env]"
  have v: "recognitionRef (fst ?w) = Some 0" "length (objects (fst ?w)) = 1"
    by (simp_all add: initial_def initial_hook_def start_def deliver_def
        recognition_onstart_def call_onStatus_def page_options_def Let_def)
  have h: "recognitionRef (fst ?w) \<noteq> None" by (simp only: v) simp
  have e: "error (fst ?w') = Some ''Speech recognition error: network''"
    by (simp add: recognition_onerror_def call_onStatus_def page_options_def Let_def)
  have q: "no_stop ?evs ?w'"
    by (simp add: initial_def initial_hook_def start_def deliver_def calls_stop_def
        voiceActive_def recognition_onstart_def recognition_onerror_def recognition_onend_def
        call_onStatus_def page_options_def Let_def)
  have i: "status (fst (run ?evs ?w')) = Idle"
    by (simp add: initial_def initial_hook_def start_def deliver_def toggleVoice_def
        voiceActive_def recognition_onstart_def recognition_onerror_def recognition_onend_def
        call_onStatus_def page_options_def Let_def)
  have g: "RecognitionClass ?env \<and> \<not> start_throws ?env" by simp
  note A = C10_start_after_error[OF h, of page_options "Some ''network''" ?env, unfolded Let_def]
  note B = A[THEN conjunct2, THEN conjunct2, THEN conjunct2, THEN conjunct2, THEN conjunct2]
  note A2 = A[THEN conjunct2, THEN conjunct1]
  note B1 = B[THEN conjunct1]
  note B2 = B[THEN conjunct2, THEN conjunct1, THEN spec, of ?evs, THEN mp, OF q]
  note B24 = B2[THEN conjunct2, THEN conjunct2, THEN conjunct2, THEN conjunct2]
  note B3 = B[THEN conjunct2, THEN conjunct2, THEN mp, OF g, THEN conjunct1]
  show ?thesis using h e q i B1 B24 B3 A2 v(2) by (simp del: run.simps step.simps no_stop.simps)
qed

end
